theory Spec2Isabelle
  imports Main "HOL-Library.Word"
begin

section \<open>The USB gadget API of include/linux/usb/gadget.h\<close>

text \<open>
  The header defines the inline wrappers through which a function driver reaches the
  controller driver: every hardware action goes through a table of function pointers
  (\<open>struct usb_ep_ops\<close>, \<open>struct usb_gadget_ops\<close>). The wrappers are embedded here as
  HOL functions that take the table and the object and return the C return value
  together with the object as the call leaves it.

  \<^item> A C \<open>int\<close> is a 32-bit word; \<open>if (ret)\<close> is \<open>ret \<noteq> 0\<close>.
  \<^item> A function pointer of a table is an \<open>option\<close>: \<open>None\<close> is the NULL pointer.
  \<^item> A controller callback receives the pointer to the object and may write to any of
    its fields, so it is a function from the object to the return value and the
    object it leaves behind. The state of the controller hardware and of the
    driver behind the callbacks is the field \<open>gadget_hw\<close> (\<open>ep_hw\<close> for an endpoint),
    of an arbitrary type; it stands for everything the callbacks reach that is not one
    of the fields the wrappers read or write.
  \<^item> The table is passed beside the object (in C it is reached through
    \<open>gadget->ops\<close> and \<open>ep->ops\<close>, a pointer to a constant table that is installed
    once); each wrapper reads it before it calls into the driver.
\<close>

type_synonym c_int = "32 word"

text \<open>
  Modelled from the spec: the errno constants of \<open>linux/errno.h\<close>, which is not
  among the sources. The spec calls them invalid-argument and not-supported; the
  values are those of the Linux errno headers.
\<close>

definition EINVAL :: c_int where
  "EINVAL = 22"

definition EOPNOTSUPP :: c_int where
  "EOPNOTSUPP = 95"

subsection \<open>Gadgets\<close>

text \<open>
  \<open>struct usb_gadget_ops\<close>: the entries the wrappers below dispatch to.
  \<open>int (*wakeup)(struct usb_gadget *)\<close> and
  \<open>int (*pullup)(struct usb_gadget *, int is_on)\<close>.
\<close>

record 'g usb_gadget_ops =
  wakeup :: "('g \<Rightarrow> c_int \<times> 'g) option"
  pullup :: "('g \<Rightarrow> c_int \<Rightarrow> c_int \<times> 'g) option"

text \<open>
  \<open>struct usb_gadget\<close>: the one-bit fields \<open>deactivated\<close> and \<open>connected\<close>, and
  the state behind the callbacks.
\<close>

record 'h usb_gadget =
  deactivated :: bool
  connected :: bool
  gadget_hw :: 'h

type_synonym 'h gadget_ops = "('h usb_gadget) usb_gadget_ops"

definition usb_gadget_wakeup ::
  "'h gadget_ops \<Rightarrow> 'h usb_gadget \<Rightarrow> c_int \<times> 'h usb_gadget" where
  "usb_gadget_wakeup ops gadget =
     (case wakeup ops of
        None \<Rightarrow> (- EOPNOTSUPP, gadget)
      | Some wakeup_fn \<Rightarrow> wakeup_fn gadget)"

definition usb_gadget_connect ::
  "'h gadget_ops \<Rightarrow> 'h usb_gadget \<Rightarrow> c_int \<times> 'h usb_gadget" where
  "usb_gadget_connect ops gadget =
     (case pullup ops of
        None \<Rightarrow> (- EOPNOTSUPP, gadget)
      | Some pullup_fn \<Rightarrow>
          if deactivated gadget then (0, gadget\<lparr>connected := True\<rparr>)
          else
            (case pullup_fn gadget 1 of
               (ret, gadget') \<Rightarrow>
                 if ret = 0 then (ret, gadget'\<lparr>connected := True\<rparr>)
                 else (ret, gadget')))"

definition usb_gadget_disconnect ::
  "'h gadget_ops \<Rightarrow> 'h usb_gadget \<Rightarrow> c_int \<times> 'h usb_gadget" where
  "usb_gadget_disconnect ops gadget =
     (case pullup ops of
        None \<Rightarrow> (- EOPNOTSUPP, gadget)
      | Some pullup_fn \<Rightarrow>
          if deactivated gadget then (0, gadget\<lparr>connected := False\<rparr>)
          else
            (case pullup_fn gadget 0 of
               (ret, gadget') \<Rightarrow>
                 if ret = 0 then (ret, gadget'\<lparr>connected := False\<rparr>)
                 else (ret, gadget')))"

definition usb_gadget_deactivate ::
  "'h gadget_ops \<Rightarrow> 'h usb_gadget \<Rightarrow> c_int \<times> 'h usb_gadget" where
  "usb_gadget_deactivate ops gadget =
     (if deactivated gadget then (0, gadget)
      else if connected gadget then
        (case usb_gadget_disconnect ops gadget of
           (ret, gadget') \<Rightarrow>
             if ret \<noteq> 0 then (ret, gadget')
             else (0, gadget'\<lparr>connected := True, deactivated := True\<rparr>))
      else (0, gadget\<lparr>deactivated := True\<rparr>))"

definition usb_gadget_activate ::
  "'h gadget_ops \<Rightarrow> 'h usb_gadget \<Rightarrow> c_int \<times> 'h usb_gadget" where
  "usb_gadget_activate ops gadget =
     (if \<not> deactivated gadget then (0, gadget)
      else
        (let gadget' = gadget\<lparr>deactivated := False\<rparr>
         in if connected gadget' then usb_gadget_connect ops gadget'
            else (0, gadget')))"

subsection \<open>The pullup line, and sequences of calls\<close>

text \<open>
  The header does not say what the controller's \<open>pullup\<close> entry does; the wrappers
  only pass it 1 or 0 and look at its return value. What the properties of the
  connection state machine assume of a controller is written down here: given an
  observation \<open>line\<close> of the D+ pullup in the hardware state, a call of the entry
  leaves \<open>connected\<close> and \<open>deactivated\<close> alone, on success (return value 0) the
  line is asserted exactly if the argument was 1, and on failure the line stays as
  it was. A table without the entry satisfies it.
\<close>

definition pullup_contract :: "('h \<Rightarrow> bool) \<Rightarrow> 'h gadget_ops \<Rightarrow> bool" where
  "pullup_contract line ops =
     (case pullup ops of
        None \<Rightarrow> True
      | Some pullup_fn \<Rightarrow>
          (\<forall>g on.
             (case pullup_fn g (if on then 1 else 0) of
                (ret, g') \<Rightarrow>
                  connected g' = connected g
                  \<and> deactivated g' = deactivated g
                  \<and> line (gadget_hw g') = (if ret = 0 then on else line (gadget_hw g)))))"

text \<open>
  The four calls of the connection state machine, and a function driver that makes
  a sequence of them on one gadget, whatever each call returns.
\<close>

datatype gadget_call = Connect | Disconnect | Deactivate | Activate

fun gadget_step ::
  "'h gadget_ops \<Rightarrow> gadget_call \<Rightarrow> 'h usb_gadget \<Rightarrow> 'h usb_gadget" where
  "gadget_step ops Connect g = snd (usb_gadget_connect ops g)"
| "gadget_step ops Disconnect g = snd (usb_gadget_disconnect ops g)"
| "gadget_step ops Deactivate g = snd (usb_gadget_deactivate ops g)"
| "gadget_step ops Activate g = snd (usb_gadget_activate ops g)"

fun gadget_run ::
  "'h gadget_ops \<Rightarrow> gadget_call list \<Rightarrow> 'h usb_gadget \<Rightarrow> 'h usb_gadget" where
  "gadget_run ops [] g = g"
| "gadget_run ops (c # cs) g = gadget_run ops cs (gadget_step ops c g)"

text \<open>
  A controller whose table has the pullup entry, and whose entry reports success on
  every call.
\<close>

definition pullup_succeeds :: "'h gadget_ops \<Rightarrow> bool" where
  "pullup_succeeds ops =
     (case pullup ops of
        None \<Rightarrow> False
      | Some pullup_fn \<Rightarrow> (\<forall>g v. fst (pullup_fn g v) = 0))"

text \<open>
  What a caller can observe of a call: its return value, the pullup line, and the two
  flags of the gadget it leaves.
\<close>

definition observe ::
  "('h \<Rightarrow> bool) \<Rightarrow> c_int \<times> 'h usb_gadget \<Rightarrow> c_int \<times> bool \<times> bool \<times> bool" where
  "observe line res =
     (fst res, line (gadget_hw (snd res)), connected (snd res), deactivated (snd res))"

subsection \<open>Endpoints\<close>

text \<open>\<open>enum gsi_ep_op\<close>: the operation codes of a GSI (hardware accelerated) endpoint.\<close>

datatype gsi_ep_op =
    GSI_EP_OP_CONFIG
  | GSI_EP_OP_STARTXFER
  | GSI_EP_OP_STORE_DBL_INFO
  | GSI_EP_OP_ENABLE_GSI
  | GSI_EP_OP_UPDATEXFER
  | GSI_EP_OP_RING_IN_DB
  | GSI_EP_OP_ENDXFER
  | GSI_EP_OP_GET_CH_INFO
  | GSI_EP_OP_GET_XFER_IDX
  | GSI_EP_OP_PREPARE_TRBS
  | GSI_EP_OP_FREE_TRBS
  | GSI_EP_OP_SET_CLR_BLOCK_DBL
  | GSI_EP_OP_CHECK_FOR_SUSPEND
  | GSI_EP_OP_DISABLE

text \<open>
  \<open>struct usb_ep_ops\<close>: the entries the wrappers below dispatch to. \<open>'e\<close> is the
  endpoint, \<open>'d\<close> an endpoint descriptor, \<open>'r\<close> the request handed to a GSI
  operation.
\<close>

record ('e, 'd, 'r) usb_ep_ops =
  enable :: "('e \<Rightarrow> 'd \<Rightarrow> c_int \<times> 'e) option"
  disable :: "('e \<Rightarrow> c_int \<times> 'e) option"
  set_halt :: "('e \<Rightarrow> c_int \<Rightarrow> c_int \<times> 'e) option"
  set_wedge :: "('e \<Rightarrow> c_int \<times> 'e) option"
  fifo_status :: "('e \<Rightarrow> c_int \<times> 'e) option"
  gsi_ep_op :: "('e \<Rightarrow> 'r \<Rightarrow> gsi_ep_op \<Rightarrow> c_int \<times> 'e) option"

text \<open>
  \<open>struct usb_ep\<close>: \<open>enabled\<close>, the 16-bit fields \<open>maxpacket\<close> and
  \<open>maxpacket_limit\<close>, the pointer \<open>desc\<close> (\<open>None\<close> is NULL), and the state
  behind the callbacks.
\<close>

record ('d, 'h) usb_ep =
  enabled :: bool
  maxpacket :: "16 word"
  maxpacket_limit :: "16 word"
  desc :: "'d option"
  ep_hw :: 'h

type_synonym ('d, 'h, 'r) ep_ops = "(('d, 'h) usb_ep, 'd, 'r) usb_ep_ops"

text \<open>The argument is an \<open>unsigned\<close>; the fields keep its low 16 bits.\<close>

definition usb_ep_set_maxpacket_limit ::
  "('d, 'h) usb_ep \<Rightarrow> 32 word \<Rightarrow> ('d, 'h) usb_ep" where
  "usb_ep_set_maxpacket_limit ep limit =
     ep\<lparr>maxpacket_limit := ucast limit, maxpacket := ucast limit\<rparr>"

text \<open>
  The wrappers that call an entry, or read through \<open>ep->desc\<close>, without testing the
  pointer return an \<open>option\<close>: \<open>None\<close> is the dereference of a NULL pointer.

  \<open>usb_endpoint_maxp\<close> is declared in \<open>linux/usb/ch9.h\<close>, which is not among the
  sources: it is a parameter here, the function that reads the maximum packet size
  out of a descriptor.
\<close>

definition usb_ep_enable ::
  "('d \<Rightarrow> c_int) \<Rightarrow> ('d, 'h, 'r) ep_ops \<Rightarrow> ('d, 'h) usb_ep
     \<Rightarrow> (c_int \<times> ('d, 'h) usb_ep) option" where
  "usb_ep_enable usb_endpoint_maxp ops ep =
     (if enabled ep then Some (0, ep)
      else
        (case desc ep of
           None \<Rightarrow> None
         | Some d \<Rightarrow>
             if usb_endpoint_maxp d = 0 then Some (- EINVAL, ep)
             else
               (case enable ops of
                  None \<Rightarrow> None
                | Some enable_fn \<Rightarrow>
                    (case enable_fn ep d of
                       (ret, ep') \<Rightarrow>
                         if ret \<noteq> 0 then Some (ret, ep')
                         else Some (0, ep'\<lparr>enabled := True\<rparr>)))))"

definition usb_ep_disable ::
  "('d, 'h, 'r) ep_ops \<Rightarrow> ('d, 'h) usb_ep \<Rightarrow> (c_int \<times> ('d, 'h) usb_ep) option" where
  "usb_ep_disable ops ep =
     (if \<not> enabled ep then Some (0, ep)
      else
        (case disable ops of
           None \<Rightarrow> None
         | Some disable_fn \<Rightarrow>
             (case disable_fn ep of
                (ret, ep') \<Rightarrow>
                  if ret \<noteq> 0 then Some (ret, ep')
                  else Some (0, ep'\<lparr>enabled := False\<rparr>))))"

definition usb_ep_set_halt ::
  "('d, 'h, 'r) ep_ops \<Rightarrow> ('d, 'h) usb_ep \<Rightarrow> (c_int \<times> ('d, 'h) usb_ep) option" where
  "usb_ep_set_halt ops ep =
     (case set_halt ops of
        None \<Rightarrow> None
      | Some set_halt_fn \<Rightarrow> Some (set_halt_fn ep 1))"

definition usb_ep_set_wedge ::
  "('d, 'h, 'r) ep_ops \<Rightarrow> ('d, 'h) usb_ep \<Rightarrow> (c_int \<times> ('d, 'h) usb_ep) option" where
  "usb_ep_set_wedge ops ep =
     (case set_wedge ops of
        Some set_wedge_fn \<Rightarrow> Some (set_wedge_fn ep)
      | None \<Rightarrow>
          (case set_halt ops of
             None \<Rightarrow> None
           | Some set_halt_fn \<Rightarrow> Some (set_halt_fn ep 1)))"

definition usb_ep_fifo_status ::
  "('d, 'h, 'r) ep_ops \<Rightarrow> ('d, 'h) usb_ep \<Rightarrow> c_int \<times> ('d, 'h) usb_ep" where
  "usb_ep_fifo_status ops ep =
     (case fifo_status ops of
        Some fifo_status_fn \<Rightarrow> fifo_status_fn ep
      | None \<Rightarrow> (- EOPNOTSUPP, ep))"

definition usb_gsi_ep_op ::
  "('d, 'h, 'r) ep_ops \<Rightarrow> ('d, 'h) usb_ep \<Rightarrow> 'r \<Rightarrow> gsi_ep_op
     \<Rightarrow> c_int \<times> ('d, 'h) usb_ep" where
  "usb_gsi_ep_op ops ep req op =
     (case gsi_ep_op ops of
        Some gsi_ep_op_fn \<Rightarrow> gsi_ep_op_fn ep req op
      | None \<Rightarrow> (- EOPNOTSUPP, ep))"

subsection \<open>Fixtures: gadgets, endpoints and tables to run the wrappers on\<close>

text \<open>
  A simulated controller whose only state is the D+ pullup line. \<open>sim_pullup\<close>
  drives the line as asked and reports success.
\<close>

definition sim_pullup :: "bool usb_gadget \<Rightarrow> c_int \<Rightarrow> c_int \<times> bool usb_gadget" where
  "sim_pullup g is_on = (0, g\<lparr>gadget_hw := (is_on \<noteq> 0)\<rparr>)"

definition sim_ops :: "bool gadget_ops" where
  "sim_ops = \<lparr>wakeup = None, pullup = Some sim_pullup\<rparr>"

text \<open>A table without the pullup entry.\<close>

definition no_pullup_ops :: "bool gadget_ops" where
  "no_pullup_ops = \<lparr>wakeup = None, pullup = None\<rparr>"

definition mk_gadget :: "bool \<Rightarrow> bool \<Rightarrow> bool \<Rightarrow> bool usb_gadget" where
  "mk_gadget d c line = \<lparr>deactivated = d, connected = c, gadget_hw = line\<rparr>"

definition sim_line :: "bool \<Rightarrow> bool" where
  "sim_line h = h"

text \<open>A controller whose pullup entry always fails and leaves the line alone.\<close>

definition sim_pullup_fail :: "bool usb_gadget \<Rightarrow> c_int \<Rightarrow> c_int \<times> bool usb_gadget" where
  "sim_pullup_fail g is_on = (- EINVAL, g)"

definition sim_fail_ops :: "bool gadget_ops" where
  "sim_fail_ops = \<lparr>wakeup = None, pullup = Some sim_pullup_fail\<rparr>"

text \<open>
  A simulated endpoint controller. Its state counts the times the hardware was told
  to enable the endpoint; a descriptor is its \<open>wMaxPacketSize\<close>. \<open>sim_disable\<close>
  reports success and writes nothing to the endpoint.
\<close>

type_synonym sim_ep = "(16 word, nat) usb_ep"

definition sim_endpoint_maxp :: "16 word \<Rightarrow> c_int" where
  "sim_endpoint_maxp d = ucast d"

definition sim_enable :: "sim_ep \<Rightarrow> 16 word \<Rightarrow> c_int \<times> sim_ep" where
  "sim_enable ep d = (0, ep\<lparr>ep_hw := Suc (ep_hw ep)\<rparr>)"

definition sim_disable :: "sim_ep \<Rightarrow> c_int \<times> sim_ep" where
  "sim_disable ep = (0, ep)"

definition sim_set_halt :: "sim_ep \<Rightarrow> c_int \<Rightarrow> c_int \<times> sim_ep" where
  "sim_set_halt ep v = (0, ep)"

text \<open>A table with the entries every controller has and none of the optional ones.\<close>

definition sim_ep_ops :: "(16 word, nat, unit) ep_ops" where
  "sim_ep_ops =
     \<lparr>enable = Some sim_enable, disable = Some sim_disable,
      set_halt = Some sim_set_halt, set_wedge = None, fifo_status = None,
      gsi_ep_op = None\<rparr>"

definition mk_ep :: "bool \<Rightarrow> 16 word \<Rightarrow> nat \<Rightarrow> sim_ep" where
  "mk_ep en d n =
     usb_ep_set_maxpacket_limit
       \<lparr>enabled = en, maxpacket = 0, maxpacket_limit = 0, desc = Some d, ep_hw = n\<rparr> 64"

section \<open>Properties\<close>

subsection \<open>The calls under the pullup contract\<close>

lemma pullup_contract_call:
  assumes "pullup_contract line ops" and "pullup ops = Some f"
    and "f g (if on then 1 else 0) = (ret, g')"
  shows "connected g' = connected g \<and> deactivated g' = deactivated g
       \<and> line (gadget_hw g') = (if ret = 0 then on else line (gadget_hw g))"
proof -
  from assms(1,2) have
    "case f g (if on then 1 else 0) of
       (ret, g') \<Rightarrow>
          connected g' = connected g \<and> deactivated g' = deactivated g
          \<and> line (gadget_hw g') = (if ret = 0 then on else line (gadget_hw g))"
    by (simp add: pullup_contract_def)
  with assms(3) show ?thesis by simp
qed

lemma pullup_contract_on:
  assumes "pullup_contract line ops" and "pullup ops = Some f" and "f g 1 = (ret, g')"
  shows "connected g' = connected g \<and> deactivated g' = deactivated g
       \<and> line (gadget_hw g') = (if ret = 0 then True else line (gadget_hw g))"
  using pullup_contract_call [OF assms(1,2), of g True ret g'] assms(3) by simp

lemma pullup_contract_off:
  assumes "pullup_contract line ops" and "pullup ops = Some f" and "f g 0 = (ret, g')"
  shows "connected g' = connected g \<and> deactivated g' = deactivated g
       \<and> line (gadget_hw g') = (if ret = 0 then False else line (gadget_hw g))"
  using pullup_contract_call [OF assms(1,2), of g False ret g'] assms(3) by simp

text \<open>
  What each of the four calls does to the flags and to the line, by its return value,
  when the controller keeps the contract.
\<close>

lemma connect_effect:
  assumes "pullup_contract line ops" and "usb_gadget_connect ops g = (r, g')"
  shows "deactivated g' = deactivated g
       \<and> (r = 0 \<longrightarrow> connected g')
       \<and> (r \<noteq> 0 \<longrightarrow> connected g' = connected g)
       \<and> (r = 0 \<and> \<not> deactivated g \<longrightarrow> line (gadget_hw g'))
       \<and> (r \<noteq> 0 \<or> deactivated g \<longrightarrow> line (gadget_hw g') = line (gadget_hw g))"
proof (cases "pullup ops")
  case None
  with assms(2) show ?thesis
    by (auto simp: usb_gadget_connect_def EOPNOTSUPP_def)
next
  case (Some f)
  show ?thesis
  proof (cases "deactivated g")
    case True
    with Some assms(2) show ?thesis
      by (auto simp: usb_gadget_connect_def)
  next
    case False
    obtain ret ga where call: "f g 1 = (ret, ga)"
      by (cases "f g 1")
    note c = pullup_contract_on [OF assms(1) Some call]
    from Some False call assms(2) have "r = ret" and "g' = (if ret = 0 then ga\<lparr>connected := True\<rparr> else ga)"
      by (auto simp: usb_gadget_connect_def split: if_splits)
    with c False show ?thesis by auto
  qed
qed

lemma disconnect_effect:
  assumes "pullup_contract line ops" and "usb_gadget_disconnect ops g = (r, g')"
  shows "deactivated g' = deactivated g
       \<and> (r = 0 \<longrightarrow> \<not> connected g')
       \<and> (r \<noteq> 0 \<longrightarrow> connected g' = connected g)
       \<and> (r = 0 \<and> \<not> deactivated g \<longrightarrow> \<not> line (gadget_hw g'))
       \<and> (r \<noteq> 0 \<or> deactivated g \<longrightarrow> line (gadget_hw g') = line (gadget_hw g))"
proof (cases "pullup ops")
  case None
  with assms(2) show ?thesis
    by (auto simp: usb_gadget_disconnect_def EOPNOTSUPP_def)
next
  case (Some f)
  show ?thesis
  proof (cases "deactivated g")
    case True
    with Some assms(2) show ?thesis
      by (auto simp: usb_gadget_disconnect_def)
  next
    case False
    obtain ret ga where call: "f g 0 = (ret, ga)"
      by (cases "f g 0")
    note c = pullup_contract_off [OF assms(1) Some call]
    from Some False call assms(2) have "r = ret" and "g' = (if ret = 0 then ga\<lparr>connected := False\<rparr> else ga)"
      by (auto simp: usb_gadget_disconnect_def split: if_splits)
    with c False show ?thesis by auto
  qed
qed

lemma deactivate_effect:
  assumes "pullup_contract line ops" and "usb_gadget_deactivate ops g = (r, g')"
  shows "connected g' = connected g
       \<and> (r = 0 \<longrightarrow> deactivated g')
       \<and> (r \<noteq> 0 \<longrightarrow> deactivated g' = deactivated g)
       \<and> (r = 0 \<and> \<not> deactivated g \<and> connected g \<longrightarrow> \<not> line (gadget_hw g'))
       \<and> (r \<noteq> 0 \<or> deactivated g \<or> \<not> connected g
            \<longrightarrow> line (gadget_hw g') = line (gadget_hw g))"
proof (cases "\<not> deactivated g \<and> connected g")
  case False
  with assms(2) show ?thesis
    by (auto simp: usb_gadget_deactivate_def split: if_splits)
next
  case True
  obtain ret ga where call: "usb_gadget_disconnect ops g = (ret, ga)"
    by (cases "usb_gadget_disconnect ops g")
  note d = disconnect_effect [OF assms(1) call]
  from True call assms(2) have "r = ret"
    and "g' = (if ret \<noteq> 0 then ga else ga\<lparr>connected := True, deactivated := True\<rparr>)"
    by (auto simp: usb_gadget_deactivate_def split: if_splits)
  with d True show ?thesis by auto
qed

lemma activate_effect:
  assumes "pullup_contract line ops" and "usb_gadget_activate ops g = (r, g')"
  shows "connected g' = connected g
       \<and> \<not> deactivated g'
       \<and> (r = 0 \<and> deactivated g \<and> connected g \<longrightarrow> line (gadget_hw g'))
       \<and> (r \<noteq> 0 \<or> \<not> deactivated g \<or> \<not> connected g
            \<longrightarrow> line (gadget_hw g') = line (gadget_hw g))"
proof (cases "deactivated g \<and> connected g")
  case False
  with assms(2) show ?thesis
    by (auto simp: usb_gadget_activate_def Let_def split: if_splits)
next
  case True
  from True assms(2) have call: "usb_gadget_connect ops (g\<lparr>deactivated := False\<rparr>) = (r, g')"
    by (simp add: usb_gadget_activate_def Let_def)
  note c = connect_effect [OF assms(1) call]
  with True show ?thesis by auto
qed

text \<open>
  The pullup is asserted only on an active gadget with \<open>connected\<close> set: every call
  keeps this, and so does every sequence of calls.
\<close>

lemma gadget_step_inv:
  assumes "pullup_contract line ops"
    and "line (gadget_hw g) \<longrightarrow> \<not> deactivated g \<and> connected g"
  shows "line (gadget_hw (gadget_step ops c g))
         \<longrightarrow> \<not> deactivated (gadget_step ops c g) \<and> connected (gadget_step ops c g)"
proof (cases c)
  case Connect
  obtain r g' where call: "usb_gadget_connect ops g = (r, g')"
    by (cases "usb_gadget_connect ops g")
  have step: "gadget_step ops c g = g'"
    using call Connect by simp
  from connect_effect [OF assms(1) call] assms(2) show ?thesis
    unfolding step by blast
next
  case Disconnect
  obtain r g' where call: "usb_gadget_disconnect ops g = (r, g')"
    by (cases "usb_gadget_disconnect ops g")
  have step: "gadget_step ops c g = g'"
    using call Disconnect by simp
  from disconnect_effect [OF assms(1) call] assms(2) show ?thesis
    unfolding step by blast
next
  case Deactivate
  obtain r g' where call: "usb_gadget_deactivate ops g = (r, g')"
    by (cases "usb_gadget_deactivate ops g")
  have step: "gadget_step ops c g = g'"
    using call Deactivate by simp
  from deactivate_effect [OF assms(1) call] assms(2) show ?thesis
    unfolding step by blast
next
  case Activate
  obtain r g' where call: "usb_gadget_activate ops g = (r, g')"
    by (cases "usb_gadget_activate ops g")
  have step: "gadget_step ops c g = g'"
    using call Activate by simp
  from activate_effect [OF assms(1) call] assms(2) show ?thesis
    unfolding step by blast
qed

lemma gadget_run_inv:
  assumes "pullup_contract line ops"
  shows "(line (gadget_hw g) \<longrightarrow> \<not> deactivated g \<and> connected g) \<Longrightarrow>
         line (gadget_hw (gadget_run ops cs g))
         \<longrightarrow> \<not> deactivated (gadget_run ops cs g) \<and> connected (gadget_run ops cs g)"
proof (induction cs arbitrary: g)
  case Nil
  then show ?case by simp
next
  case (Cons c cs)
  from gadget_step_inv [OF assms Cons.prems]
  have "line (gadget_hw (gadget_step ops c g))
         \<longrightarrow> \<not> deactivated (gadget_step ops c g) \<and> connected (gadget_step ops c g)" .
  from Cons.IH [OF this] show ?case by simp
qed

text \<open>On an active gadget connect and disconnect return what the pullup entry returns.\<close>

lemma connect_active_ret:
  assumes "pullup ops = Some f" and "\<not> deactivated g"
  shows "fst (usb_gadget_connect ops g) = fst (f g 1)"
  using assms by (cases "f g 1") (simp add: usb_gadget_connect_def)

lemma disconnect_active_ret:
  assumes "pullup ops = Some f" and "\<not> deactivated g"
  shows "fst (usb_gadget_disconnect ops g) = fst (f g 0)"
  using assms by (cases "f g 0") (simp add: usb_gadget_disconnect_def)

lemma connect_active_success:
  assumes "pullup_contract line ops" and "pullup_succeeds ops" and "\<not> deactivated g"
  shows "observe line (usb_gadget_connect ops g) = (0, True, True, False)"
proof -
  obtain f where f: "pullup ops = Some f" and ok: "\<forall>g v. fst (f g v) = 0"
    using assms(2) by (auto simp: pullup_succeeds_def split: option.splits)
  obtain r g' where call: "usb_gadget_connect ops g = (r, g')"
    by (cases "usb_gadget_connect ops g")
  have "r = 0"
    using connect_active_ret [OF f assms(3)] ok call by simp
  with connect_effect [OF assms(1) call] assms(3) call show ?thesis
    by (simp add: observe_def)
qed

lemma disconnect_active_success:
  assumes "pullup_contract line ops" and "pullup_succeeds ops" and "\<not> deactivated g"
  shows "observe line (usb_gadget_disconnect ops g) = (0, False, False, False)"
proof -
  obtain f where f: "pullup ops = Some f" and ok: "\<forall>g v. fst (f g v) = 0"
    using assms(2) by (auto simp: pullup_succeeds_def split: option.splits)
  obtain r g' where call: "usb_gadget_disconnect ops g = (r, g')"
    by (cases "usb_gadget_disconnect ops g")
  have "r = 0"
    using disconnect_active_ret [OF f assms(3)] ok call by simp
  with disconnect_effect [OF assms(1) call] assms(3) call show ?thesis
    by (simp add: observe_def)
qed

subsection \<open>The properties C1 to C10\<close>

text \<open>
  C1 as stated fails. After \<open>deactivate\<close> and \<open>connect\<close> from the
  initial state the gadget is deactivated with \<open>connected\<close> set and the pullup
  deasserted; on this gadget \<open>usb_gadget_deactivate\<close> returns at once, and
  \<open>usb_gadget_activate\<close> then asserts the pullup, which was not asserted before the
  two calls. The controller is one that keeps the contract and never fails.
\<close>

theorem deactivate_activate_counterexample:
  "pullup_contract sim_line sim_ops
   \<and> gadget_run sim_ops [Deactivate, Connect] (mk_gadget False False False)
       = mk_gadget True True False
   \<and> usb_gadget_deactivate sim_ops (mk_gadget True True False)
       = (0, mk_gadget True True False)
   \<and> usb_gadget_activate sim_ops (mk_gadget True True False)
       = (0, mk_gadget False True True)
   \<and> \<not> sim_line (gadget_hw (mk_gadget True True False))
   \<and> sim_line (gadget_hw (mk_gadget False True True))"
  by (simp add: pullup_contract_def usb_gadget_connect_def usb_gadget_deactivate_def
      usb_gadget_activate_def sim_ops_def sim_pullup_def sim_line_def mk_gadget_def)

text \<open>
  C1, amended. Let the controller keep the pullup contract, and let the call of
  \<open>usb_gadget_activate\<close> that follows \<open>usb_gadget_deactivate\<close> return 0.

  \<^item> If the gadget is not deactivated with \<open>connected\<close> set, and the pullup of an
    active gadget with \<open>connected\<close> set is asserted, then after the two calls the
    pullup line and \<open>connected\<close> are as they were before
    \<open>usb_gadget_deactivate\<close>, and so is \<open>deactivated\<close> when the gadget was active.
  \<^item> If the gadget is already deactivated with \<open>connected\<close> set, then
    \<open>usb_gadget_deactivate\<close> returns 0 and leaves the gadget as it was, and after
    \<open>usb_gadget_activate\<close> the pullup is asserted, \<open>connected\<close> is set and
    \<open>deactivated\<close> is clear.
\<close>

theorem deactivate_activate_restores:
  assumes "pullup_contract line ops"
    and "usb_gadget_deactivate ops g = (r1, g1)"
    and "usb_gadget_activate ops g1 = (0, g2)"
  shows "(\<not> (deactivated g \<and> connected g)
          \<and> (\<not> deactivated g \<and> connected g \<longrightarrow> line (gadget_hw g))
          \<longrightarrow> line (gadget_hw g2) = line (gadget_hw g) \<and> connected g2 = connected g
            \<and> (\<not> deactivated g \<longrightarrow> deactivated g2 = deactivated g))
       \<and> (deactivated g \<and> connected g
          \<longrightarrow> r1 = 0 \<and> g1 = g
            \<and> line (gadget_hw g2) \<and> connected g2 \<and> \<not> deactivated g2)"
proof -
  note d = deactivate_effect [OF assms(1) assms(2)]
  note a = activate_effect [OF assms(1) assms(3)]
  have restored: "line (gadget_hw g2) = line (gadget_hw g) \<and> connected g2 = connected g
       \<and> (\<not> deactivated g \<longrightarrow> deactivated g2 = deactivated g)"
    if "\<not> (deactivated g \<and> connected g)"
      and "\<not> deactivated g \<and> connected g \<longrightarrow> line (gadget_hw g)"
    using d a that by blast
  have replayed: "r1 = 0 \<and> g1 = g
       \<and> line (gadget_hw g2) \<and> connected g2 \<and> \<not> deactivated g2"
    if "deactivated g \<and> connected g"
  proof -
    from that assms(2) have same: "r1 = 0 \<and> g1 = g"
      by (simp add: usb_gadget_deactivate_def)
    with a that show ?thesis by simp
  qed
  from restored replayed show ?thesis by blast
qed

theorem deactivate_activate_restores_witness:
  "pullup_contract sim_line sim_ops
   \<and> \<not> (deactivated (mk_gadget False True True) \<and> connected (mk_gadget False True True))
   \<and> sim_line (gadget_hw (mk_gadget False True True))
   \<and> usb_gadget_deactivate sim_ops (mk_gadget False True True)
       = (0, mk_gadget True True False)
   \<and> \<not> sim_line (gadget_hw (mk_gadget True True False))
   \<and> usb_gadget_activate sim_ops (mk_gadget True True False)
       = (0, mk_gadget False True True)
   \<and> deactivated (mk_gadget True True False) \<and> connected (mk_gadget True True False)
   \<and> usb_gadget_deactivate sim_ops (mk_gadget True True False)
       = (0, mk_gadget True True False)
   \<and> sim_line (gadget_hw (mk_gadget False True True))
   \<and> connected (mk_gadget False True True)
   \<and> \<not> deactivated (mk_gadget False True True)"
proof -
  have h1: "pullup_contract sim_line sim_ops"
    by (simp add: pullup_contract_def sim_ops_def sim_pullup_def sim_line_def)
  have active: "\<not> (deactivated (mk_gadget False True True)
               \<and> connected (mk_gadget False True True))"
    and line: "sim_line (gadget_hw (mk_gadget False True True))"
    and parked: "deactivated (mk_gadget True True False)
               \<and> connected (mk_gadget True True False)"
    by (simp_all add: mk_gadget_def sim_line_def)
  have d1: "usb_gadget_deactivate sim_ops (mk_gadget False True True)
              = (0, mk_gadget True True False)"
    by (simp add: usb_gadget_deactivate_def usb_gadget_disconnect_def sim_ops_def
        sim_pullup_def mk_gadget_def)
  have d2: "usb_gadget_deactivate sim_ops (mk_gadget True True False)
              = (0, mk_gadget True True False)"
    by (simp add: usb_gadget_deactivate_def mk_gadget_def)
  have a: "usb_gadget_activate sim_ops (mk_gadget True True False)
              = (0, mk_gadget False True True)"
    by (simp add: usb_gadget_activate_def usb_gadget_connect_def sim_ops_def
        sim_pullup_def mk_gadget_def)
  show ?thesis
    using h1 active line parked d1 d2 a
      deactivate_activate_restores [OF h1 d1 a]
      deactivate_activate_restores [OF h1 d2 a]
    by (simp add: mk_gadget_def sim_line_def)
qed

text \<open>
  C2 as stated fails: on a deactivated gadget whose table has no pullup
  entry \<open>usb_gadget_connect\<close> returns the error \<open>-EOPNOTSUPP\<close> and does not set
  \<open>connected\<close>.
\<close>

theorem deactivated_connect_counterexample:
  "deactivated (mk_gadget True False False)
   \<and> usb_gadget_connect no_pullup_ops (mk_gadget True False False)
       = (- EOPNOTSUPP, mk_gadget True False False)
   \<and> - EOPNOTSUPP \<noteq> (0 :: c_int)
   \<and> \<not> connected (mk_gadget True False False)"
  by (simp add: usb_gadget_connect_def no_pullup_ops_def mk_gadget_def EOPNOTSUPP_def)

text \<open>
  C2, amended. On a deactivated gadget whose table has the pullup entry,
  \<open>usb_gadget_connect\<close> returns 0 and only sets \<open>connected\<close>, and
  \<open>usb_gadget_disconnect\<close> returns 0 and only clears \<open>connected\<close>. The result
  is the same whatever the pullup entry is, and the hardware state is as before:
  the entry is not called.
\<close>

theorem deactivated_connect_records_intent:
  assumes "pullup ops = Some pullup_fn" and "deactivated g"
  shows "usb_gadget_connect ops g = (0, g\<lparr>connected := True\<rparr>)
       \<and> usb_gadget_disconnect ops g = (0, g\<lparr>connected := False\<rparr>)
       \<and> gadget_hw (snd (usb_gadget_connect ops g)) = gadget_hw g
       \<and> gadget_hw (snd (usb_gadget_disconnect ops g)) = gadget_hw g"
  using assms by (simp add: usb_gadget_connect_def usb_gadget_disconnect_def)

theorem deactivated_connect_records_intent_witness:
  "pullup sim_ops = Some sim_pullup \<and> deactivated (mk_gadget True False False)
   \<and> usb_gadget_connect sim_ops (mk_gadget True False False)
       = (0, mk_gadget True True False)
   \<and> usb_gadget_disconnect sim_ops (mk_gadget True False False)
       = (0, mk_gadget True False False)"
proof -
  have h1: "pullup sim_ops = Some sim_pullup"
    by (simp add: sim_ops_def)
  have h2: "deactivated (mk_gadget True False False)"
    by (simp add: mk_gadget_def)
  show ?thesis
    using h1 h2 deactivated_connect_records_intent [OF h1 h2]
    by (simp add: mk_gadget_def)
qed

text \<open>
  C3. On an endpoint that is not enabled and whose descriptor has maximum packet
  size zero, \<open>usb_ep_enable\<close> returns \<open>-EINVAL\<close>, which is an error, and the
  endpoint is returned as it was, so it is still not enabled. This holds for every
  table, also one without an \<open>enable\<close> entry: the entry is not called.
\<close>

theorem enable_zero_maxpacket:
  assumes "\<not> enabled ep" and "desc ep = Some d" and "usb_endpoint_maxp d = 0"
  shows "usb_ep_enable usb_endpoint_maxp ops ep = Some (- EINVAL, ep)
       \<and> - EINVAL \<noteq> (0 :: c_int)"
  using assms by (simp add: usb_ep_enable_def EINVAL_def)

theorem enable_zero_maxpacket_witness:
  "\<not> enabled (mk_ep False 0 0) \<and> desc (mk_ep False 0 0) = Some 0
   \<and> sim_endpoint_maxp 0 = 0 \<and> maxpacket_limit (mk_ep False 0 0) = 64
   \<and> usb_ep_enable sim_endpoint_maxp sim_ep_ops (mk_ep False 0 0)
       = Some (- EINVAL, mk_ep False 0 0)"
proof -
  have h1: "\<not> enabled (mk_ep False 0 0)"
    by (simp add: mk_ep_def usb_ep_set_maxpacket_limit_def)
  have h2: "desc (mk_ep False 0 0) = Some 0"
    by (simp add: mk_ep_def usb_ep_set_maxpacket_limit_def)
  have h3: "sim_endpoint_maxp 0 = 0"
    by (simp add: sim_endpoint_maxp_def)
  have h4: "maxpacket_limit (mk_ep False 0 0) = 64"
    by (simp add: mk_ep_def usb_ep_set_maxpacket_limit_def)
  show ?thesis
    using h1 h2 h3 h4
      enable_zero_maxpacket [where ep = "mk_ep False 0 0" and d = 0
        and usb_endpoint_maxp = sim_endpoint_maxp and ops = sim_ep_ops]
    by simp
qed

text \<open>
  C4 as stated fails: after a successful \<open>usb_ep_disable\<close> of an
  enabled endpoint the descriptor is still bound when the controller's \<open>disable\<close>
  entry did not clear it. The wrapper writes \<open>enabled\<close> only.
\<close>

theorem disable_keeps_desc_counterexample:
  "enabled (mk_ep True 512 1)
   \<and> usb_ep_disable sim_ep_ops (mk_ep True 512 1) = Some (0, mk_ep False 512 1)
   \<and> desc (mk_ep False 512 1) = Some 512"
  by (simp add: usb_ep_disable_def sim_ep_ops_def sim_disable_def mk_ep_def
      usb_ep_set_maxpacket_limit_def)

text \<open>
  C4, amended. \<open>usb_ep_disable\<close> on an endpoint that is not enabled returns 0 and
  leaves the endpoint as it was. On an enabled endpoint whose \<open>disable\<close> entry
  returns 0 it returns 0 and the endpoint is the one the entry left, with
  \<open>enabled\<close> cleared; the descriptor pointer is as the entry left it.
\<close>

theorem disable_marks_disabled:
  "(\<not> enabled ep \<longrightarrow> usb_ep_disable ops ep = Some (0, ep))
   \<and> (enabled ep \<and> disable ops = Some disable_fn \<and> disable_fn ep = (0, ep')
        \<longrightarrow> usb_ep_disable ops ep = Some (0, ep'\<lparr>enabled := False\<rparr>)
          \<and> \<not> enabled (ep'\<lparr>enabled := False\<rparr>)
          \<and> desc (ep'\<lparr>enabled := False\<rparr>) = desc ep')"
  by (simp add: usb_ep_disable_def)

theorem disable_marks_disabled_witness:
  "\<not> enabled (mk_ep False 512 0)
   \<and> usb_ep_disable sim_ep_ops (mk_ep False 512 0) = Some (0, mk_ep False 512 0)
   \<and> enabled (mk_ep True 512 1) \<and> disable sim_ep_ops = Some sim_disable
   \<and> sim_disable (mk_ep True 512 1) = (0, mk_ep True 512 1)
   \<and> usb_ep_disable sim_ep_ops (mk_ep True 512 1)
       = Some (0, (mk_ep True 512 1)\<lparr>enabled := False\<rparr>)"
proof -
  have h1: "\<not> enabled (mk_ep False 512 0)"
    by (simp add: mk_ep_def usb_ep_set_maxpacket_limit_def)
  have h2: "enabled (mk_ep True 512 1)"
    by (simp add: mk_ep_def usb_ep_set_maxpacket_limit_def)
  have h3: "disable sim_ep_ops = Some sim_disable"
    by (simp add: sim_ep_ops_def)
  have h4: "sim_disable (mk_ep True 512 1) = (0, mk_ep True 512 1)"
    by (simp add: sim_disable_def)
  show ?thesis
    using h1 h2 h3 h4
      disable_marks_disabled [of "mk_ep False 512 0" sim_ep_ops]
      disable_marks_disabled [of "mk_ep True 512 1" sim_ep_ops sim_disable "mk_ep True 512 1"]
    by simp
qed

text \<open>
  C5. When \<open>usb_ep_enable\<close> has returned 0, a second \<open>usb_ep_enable\<close> on the
  endpoint it left returns 0 and leaves that endpoint as it is. This holds for every
  table and every reading of the descriptor given to the second call: the second
  call reaches neither the descriptor nor the \<open>enable\<close> entry.
\<close>

theorem enable_twice:
  assumes "usb_ep_enable usb_endpoint_maxp ops ep = Some (0, ep1)"
  shows "usb_ep_enable usb_endpoint_maxp' ops' ep1 = Some (0, ep1)"
proof -
  have "enabled ep1"
    using assms
    by (auto simp: usb_ep_enable_def EINVAL_def
        split: if_splits option.splits prod.splits)
  then show ?thesis
    by (simp add: usb_ep_enable_def)
qed

theorem enable_twice_witness:
  "usb_ep_enable sim_endpoint_maxp sim_ep_ops (mk_ep False 512 0)
     = Some (0, mk_ep True 512 1)
   \<and> usb_ep_enable sim_endpoint_maxp sim_ep_ops (mk_ep True 512 1)
     = Some (0, mk_ep True 512 1)
   \<and> ep_hw (mk_ep True 512 1) = 1"
proof -
  have h: "usb_ep_enable sim_endpoint_maxp sim_ep_ops (mk_ep False 512 0)
             = Some (0, mk_ep True 512 1)"
    by (simp add: usb_ep_enable_def sim_endpoint_maxp_def sim_ep_ops_def
        sim_enable_def mk_ep_def usb_ep_set_maxpacket_limit_def)
  have n: "ep_hw (mk_ep True 512 1) = 1"
    by (simp add: mk_ep_def usb_ep_set_maxpacket_limit_def)
  show ?thesis
    using h n enable_twice [OF h, of sim_endpoint_maxp sim_ep_ops]
    by simp
qed

text \<open>
  C6. Start from a gadget with \<open>connected\<close> and \<open>deactivated\<close> clear and the
  pullup deasserted, on a controller that keeps the pullup contract (its pullup entry
  may fail at any call). After any sequence of connect, disconnect, deactivate and
  activate calls, if the pullup is asserted then \<open>deactivated\<close> is clear and
  \<open>connected\<close> is set.
\<close>

theorem pullup_only_when_active_and_connected:
  assumes "pullup_contract line ops"
    and "\<not> connected g0" and "\<not> deactivated g0" and "\<not> line (gadget_hw g0)"
  shows "line (gadget_hw (gadget_run ops cs g0))
         \<longrightarrow> \<not> deactivated (gadget_run ops cs g0) \<and> connected (gadget_run ops cs g0)"
  using gadget_run_inv [OF assms(1), of g0 cs] assms(4) by simp

theorem pullup_only_when_active_and_connected_witness:
  "pullup_contract sim_line sim_ops
   \<and> \<not> connected (mk_gadget False False False)
   \<and> \<not> deactivated (mk_gadget False False False)
   \<and> \<not> sim_line (gadget_hw (mk_gadget False False False))
   \<and> gadget_run sim_ops [Connect, Deactivate, Disconnect, Connect, Activate]
        (mk_gadget False False False) = mk_gadget False True True
   \<and> sim_line (gadget_hw (mk_gadget False True True))
   \<and> \<not> deactivated (mk_gadget False True True)
   \<and> connected (mk_gadget False True True)"
proof -
  have h1: "pullup_contract sim_line sim_ops"
    by (simp add: pullup_contract_def sim_ops_def sim_pullup_def sim_line_def)
  have h2: "\<not> connected (mk_gadget False False False)"
    and h3: "\<not> deactivated (mk_gadget False False False)"
    and h4: "\<not> sim_line (gadget_hw (mk_gadget False False False))"
    by (simp_all add: mk_gadget_def sim_line_def)
  have run: "gadget_run sim_ops [Connect, Deactivate, Disconnect, Connect, Activate]
        (mk_gadget False False False) = mk_gadget False True True"
    by (simp add: usb_gadget_connect_def usb_gadget_disconnect_def
        usb_gadget_deactivate_def usb_gadget_activate_def sim_ops_def sim_pullup_def
        mk_gadget_def)
  have line: "sim_line (gadget_hw (mk_gadget False True True))"
    by (simp add: mk_gadget_def sim_line_def)
  show ?thesis
    using h1 h2 h3 h4 run line
      pullup_only_when_active_and_connected [OF h1 h2 h3 h4,
        of "[Connect, Deactivate, Disconnect, Connect, Activate]"]
    by simp
qed

text \<open>
  C7. On an active gadget whose controller keeps the pullup contract and whose pullup
  entry always succeeds, a second \<open>usb_gadget_connect\<close> right after the first is
  observed as the first is: return value 0, pullup asserted, \<open>connected\<close> set,
  \<open>deactivated\<close> clear. Likewise a second \<open>usb_gadget_disconnect\<close>: return
  value 0, pullup deasserted, \<open>connected\<close> clear, \<open>deactivated\<close> clear.
\<close>

theorem connect_twice_as_once:
  assumes "pullup_contract line ops" and "pullup_succeeds ops" and "\<not> deactivated g"
  shows "observe line (usb_gadget_connect ops (snd (usb_gadget_connect ops g)))
           = observe line (usb_gadget_connect ops g)
       \<and> observe line (usb_gadget_connect ops g) = (0, True, True, False)
       \<and> observe line (usb_gadget_disconnect ops (snd (usb_gadget_disconnect ops g)))
           = observe line (usb_gadget_disconnect ops g)
       \<and> observe line (usb_gadget_disconnect ops g) = (0, False, False, False)"
proof -
  have c1: "observe line (usb_gadget_connect ops g) = (0, True, True, False)"
    by (rule connect_active_success [OF assms])
  then have "\<not> deactivated (snd (usb_gadget_connect ops g))"
    by (simp add: observe_def)
  from connect_active_success [OF assms(1,2) this]
  have c2: "observe line (usb_gadget_connect ops (snd (usb_gadget_connect ops g)))
              = (0, True, True, False)" .
  have d1: "observe line (usb_gadget_disconnect ops g) = (0, False, False, False)"
    by (rule disconnect_active_success [OF assms])
  then have "\<not> deactivated (snd (usb_gadget_disconnect ops g))"
    by (simp add: observe_def)
  from disconnect_active_success [OF assms(1,2) this]
  have d2: "observe line (usb_gadget_disconnect ops (snd (usb_gadget_disconnect ops g)))
              = (0, False, False, False)" .
  from c1 c2 d1 d2 show ?thesis by simp
qed

theorem connect_twice_as_once_witness:
  "pullup_contract sim_line sim_ops \<and> pullup_succeeds sim_ops
   \<and> \<not> deactivated (mk_gadget False False False)
   \<and> usb_gadget_connect sim_ops (mk_gadget False False False)
       = (0, mk_gadget False True True)
   \<and> usb_gadget_connect sim_ops (mk_gadget False True True)
       = (0, mk_gadget False True True)
   \<and> observe sim_line (usb_gadget_connect sim_ops (mk_gadget False True True))
       = (0, True, True, False)
   \<and> observe sim_line (usb_gadget_disconnect sim_ops
         (snd (usb_gadget_disconnect sim_ops (mk_gadget False False False))))
       = (0, False, False, False)"
proof -
  have h1: "pullup_contract sim_line sim_ops"
    by (simp add: pullup_contract_def sim_ops_def sim_pullup_def sim_line_def)
  have h2: "pullup_succeeds sim_ops"
    by (simp add: pullup_succeeds_def sim_ops_def sim_pullup_def)
  have h3: "\<not> deactivated (mk_gadget False False False)"
    by (simp add: mk_gadget_def)
  have once: "usb_gadget_connect sim_ops (mk_gadget False False False)
       = (0, mk_gadget False True True)"
    by (simp add: usb_gadget_connect_def sim_ops_def sim_pullup_def mk_gadget_def)
  have twice: "usb_gadget_connect sim_ops (mk_gadget False True True)
       = (0, mk_gadget False True True)"
    by (simp add: usb_gadget_connect_def sim_ops_def sim_pullup_def mk_gadget_def)
  show ?thesis
    using h1 h2 h3 once twice connect_twice_as_once [OF h1 h2 h3]
    by simp
qed

text \<open>
  C8. When the optional entry is absent from the table: \<open>usb_ep_set_wedge\<close> does
  what \<open>usb_ep_set_halt\<close> does, that is, it calls the \<open>set_halt\<close> entry with
  value 1; \<open>usb_ep_fifo_status\<close> and \<open>usb_gadget_wakeup\<close> return
  \<open>-EOPNOTSUPP\<close>; \<open>usb_gsi_ep_op\<close> returns \<open>-EOPNOTSUPP\<close> for every request and
  every operation code. \<open>-EOPNOTSUPP\<close> is an error, and the three calls that
  return it leave the object as it was.
\<close>

theorem absent_entry_fallback:
  "(set_wedge ops = None \<longrightarrow>
      usb_ep_set_wedge ops ep = usb_ep_set_halt ops ep
      \<and> (\<forall>halt_fn. set_halt ops = Some halt_fn \<longrightarrow>
            usb_ep_set_wedge ops ep = Some (halt_fn ep 1)))
   \<and> (fifo_status ops = None \<longrightarrow> usb_ep_fifo_status ops ep = (- EOPNOTSUPP, ep))
   \<and> (wakeup gops = None \<longrightarrow> usb_gadget_wakeup gops g = (- EOPNOTSUPP, g))
   \<and> (gsi_ep_op ops = None \<longrightarrow>
        (\<forall>req op. usb_gsi_ep_op ops ep req op = (- EOPNOTSUPP, ep)))
   \<and> - EOPNOTSUPP \<noteq> (0 :: c_int)"
  by (simp add: usb_ep_set_wedge_def usb_ep_set_halt_def usb_ep_fifo_status_def
      usb_gadget_wakeup_def usb_gsi_ep_op_def EOPNOTSUPP_def)

theorem absent_entry_fallback_witness:
  "set_wedge sim_ep_ops = None \<and> set_halt sim_ep_ops = Some sim_set_halt
   \<and> fifo_status sim_ep_ops = None \<and> wakeup sim_ops = None
   \<and> gsi_ep_op sim_ep_ops = None
   \<and> usb_ep_set_wedge sim_ep_ops (mk_ep True 512 1)
       = Some (sim_set_halt (mk_ep True 512 1) 1)
   \<and> usb_ep_fifo_status sim_ep_ops (mk_ep True 512 1) = (- EOPNOTSUPP, mk_ep True 512 1)
   \<and> usb_gadget_wakeup sim_ops (mk_gadget False True True)
       = (- EOPNOTSUPP, mk_gadget False True True)
   \<and> usb_gsi_ep_op sim_ep_ops (mk_ep True 512 1) () GSI_EP_OP_STARTXFER
       = (- EOPNOTSUPP, mk_ep True 512 1)"
proof -
  have h: "set_wedge sim_ep_ops = None \<and> set_halt sim_ep_ops = Some sim_set_halt
      \<and> fifo_status sim_ep_ops = None \<and> gsi_ep_op sim_ep_ops = None"
    by (simp add: sim_ep_ops_def)
  have w: "wakeup sim_ops = None"
    by (simp add: sim_ops_def)
  show ?thesis
    using h w
      absent_entry_fallback [of sim_ep_ops "mk_ep True 512 1" sim_ops
        "mk_gadget False True True"]
    by (simp add: usb_ep_set_halt_def)
qed

text \<open>
  C9. On a gadget whose table has no pullup entry, \<open>usb_gadget_connect\<close> and
  \<open>usb_gadget_disconnect\<close> return \<open>-EOPNOTSUPP\<close>, which is an error (not zero), and
  leave the gadget as it was: \<open>connected\<close> and \<open>deactivated\<close> keep their values,
  also on a deactivated gadget, where no intent is recorded.
\<close>

theorem no_pullup_not_supported:
  assumes "pullup ops = None"
  shows "usb_gadget_connect ops g = (- EOPNOTSUPP, g)
       \<and> usb_gadget_disconnect ops g = (- EOPNOTSUPP, g)
       \<and> - EOPNOTSUPP \<noteq> (0 :: c_int)
       \<and> connected (snd (usb_gadget_connect ops g)) = connected g
       \<and> deactivated (snd (usb_gadget_connect ops g)) = deactivated g
       \<and> connected (snd (usb_gadget_disconnect ops g)) = connected g
       \<and> deactivated (snd (usb_gadget_disconnect ops g)) = deactivated g"
  using assms
  by (simp add: usb_gadget_connect_def usb_gadget_disconnect_def EOPNOTSUPP_def)

theorem no_pullup_not_supported_witness:
  "pullup no_pullup_ops = None
   \<and> usb_gadget_connect no_pullup_ops (mk_gadget True False False)
       = (- EOPNOTSUPP, mk_gadget True False False)
   \<and> usb_gadget_disconnect no_pullup_ops (mk_gadget True True False)
       = (- EOPNOTSUPP, mk_gadget True True False)"
proof -
  have h: "pullup no_pullup_ops = None"
    by (simp add: no_pullup_ops_def)
  show ?thesis
    using h no_pullup_not_supported [OF h, of "mk_gadget True False False"]
      no_pullup_not_supported [OF h, of "mk_gadget True True False"]
    by simp
qed

text \<open>
  C10. On an active gadget with \<open>connected\<close> set, when the pullup entry called with 0
  returns an error, \<open>usb_gadget_deactivate\<close> returns that error and the gadget is
  the one the entry left: the wrapper writes to none of its fields. With a controller
  that keeps the pullup contract \<open>connected\<close> is still set, \<open>deactivated\<close> is
  still clear, and the pullup line is as it was.
\<close>

theorem deactivate_failure_atomic:
  assumes "pullup_contract line ops" and "pullup ops = Some pullup_fn"
    and "connected g" and "\<not> deactivated g"
    and "pullup_fn g 0 = (ret, g')" and "ret \<noteq> 0"
  shows "usb_gadget_deactivate ops g = (ret, g')
       \<and> connected g' \<and> \<not> deactivated g'
       \<and> line (gadget_hw g') = line (gadget_hw g)"
proof -
  have "usb_gadget_disconnect ops g = (ret, g')"
    using assms(2,4,5,6) by (simp add: usb_gadget_disconnect_def)
  then have "usb_gadget_deactivate ops g = (ret, g')"
    using assms(3,4,6) by (simp add: usb_gadget_deactivate_def)
  moreover note pullup_contract_off [OF assms(1,2,5)]
  ultimately show ?thesis
    using assms(3,4,6) by simp
qed

theorem deactivate_failure_atomic_witness:
  "pullup_contract sim_line sim_fail_ops \<and> pullup sim_fail_ops = Some sim_pullup_fail
   \<and> connected (mk_gadget False True True) \<and> \<not> deactivated (mk_gadget False True True)
   \<and> sim_pullup_fail (mk_gadget False True True) 0 = (- EINVAL, mk_gadget False True True)
   \<and> - EINVAL \<noteq> (0 :: c_int)
   \<and> usb_gadget_deactivate sim_fail_ops (mk_gadget False True True)
       = (- EINVAL, mk_gadget False True True)"
proof -
  have h1: "pullup_contract sim_line sim_fail_ops"
    by (simp add: pullup_contract_def sim_fail_ops_def sim_pullup_fail_def sim_line_def
        EINVAL_def)
  have h2: "pullup sim_fail_ops = Some sim_pullup_fail"
    by (simp add: sim_fail_ops_def)
  have h3: "connected (mk_gadget False True True)"
    and h4: "\<not> deactivated (mk_gadget False True True)"
    by (simp_all add: mk_gadget_def)
  have h5: "sim_pullup_fail (mk_gadget False True True) 0
              = (- EINVAL, mk_gadget False True True)"
    by (simp add: sim_pullup_fail_def)
  have h6: "- EINVAL \<noteq> (0 :: c_int)"
    by (simp add: EINVAL_def)
  show ?thesis
    using h1 h2 h3 h4 h5 h6 deactivate_failure_atomic [OF h1 h2 h3 h4 h5 h6]
    by simp
qed

end
